theory Spec2Isabelle
  imports Main "HOL-Library.Word" "HOL-Library.AList" "HOL-Library.List_Lexorder"
    "HOL-Library.Sublist"
    "HOL-Library.Char_ord"
begin

section \<open>Values, errors and the archive container\<close>

text \<open>
  The module \<^verbatim>\<open>requre/helpers/files.py\<close> packs a file or a directory into a tar
  archive kept in a keyed persistent store, and unpacks it again on replay. The
  embedding follows the Python source: exceptions are values of \<open>error\<close>, the
  filesystem, the working directory and the store are passed explicitly in a record,
  and the library calls the source makes (\<^verbatim>\<open>os\<close>, \<^verbatim>\<open>os.path\<close>,
  \<^verbatim>\<open>tarfile\<close>) are modelled for regular files and directories.
\<close>

type_synonym bytes = "8 word list"

datatype error =
    TypeError
  | IndexError
  | FileNotFoundError
  | NotADirectoryError
  | IsADirectoryError
  | FileExistsError
  | ReadError
  | PersistentStorageException
  | OtherError string

datatype pyval = PNone | PStr string | PInt int

text \<open>Store keys are heterogeneous: strings and integers (argument positions).\<close>

datatype key = KStr string | KInt int

text \<open>
  A member of a tar archive: its name and its type. A regular member carries its
  content; the source changes \<open>name\<close> in place before extracting a member.
\<close>

datatype tartype = REGTYPE bytes | DIRTYPE

record tarinfo =
  name :: string
  ttype :: tartype

definition isfile :: "tarinfo \<Rightarrow> bool" where
  "isfile m = (case ttype m of REGTYPE b \<Rightarrow> True | DIRTYPE \<Rightarrow> False)"

text \<open>
  The bytes kept in the store. The xz-compressed tar container is an opaque bundling
  primitive: a blob is either the encoding of a list of members, or bytes that are no
  such archive.
\<close>

datatype blob = TarXz "tarinfo list" | Garbage bytes

definition tar_open_read :: "blob \<Rightarrow> error + tarinfo list" where
  "tar_open_read v = (case v of TarXz ms \<Rightarrow> Inr ms | Garbage b \<Rightarrow> Inl ReadError)"

section \<open>Path strings (\<^verbatim>\<open>os.path\<close>, \<^verbatim>\<open>str.split\<close>)\<close>

abbreviation sep :: char where
  "sep \<equiv> CHR ''/''"

text \<open>\<^verbatim>\<open>s.split(os.path.sep)\<close>: all the segments between separators.\<close>

fun split_sep :: "string \<Rightarrow> string list" where
  "split_sep [] = [[]]"
| "split_sep (c # cs) =
     (if c = sep then [] # split_sep cs
      else (c # hd (split_sep cs)) # tl (split_sep cs))"

text \<open>\<^verbatim>\<open>s.split(os.path.sep, 1)\<close>: at most one split, at the first separator.\<close>

definition split1 :: "string \<Rightarrow> string list" where
  "split1 s =
     (if sep \<in> set s
      then [takeWhile (\<lambda>c. c \<noteq> sep) s, tl (dropWhile (\<lambda>c. c \<noteq> sep) s)]
      else [s])"

definition rstrip_sep :: "string \<Rightarrow> string" where
  "rstrip_sep s = rev (dropWhile (\<lambda>c. c = sep) (rev s))"

text \<open>\<^verbatim>\<open>posixpath.basename\<close>: what follows the last separator.\<close>

definition basename :: "string \<Rightarrow> string" where
  "basename p = rev (takeWhile (\<lambda>c. c \<noteq> sep) (rev p))"

text \<open>
  \<^verbatim>\<open>posixpath.dirname\<close>: what precedes the basename, without its trailing
  separators unless it consists of separators only.
\<close>

definition dirname :: "string \<Rightarrow> string" where
  "dirname p =
     (let head = rev (dropWhile (\<lambda>c. c \<noteq> sep) (rev p))
      in if head \<noteq> [] \<and> \<not> (\<forall>c \<in> set head. c = sep) then rstrip_sep head else head)"

text \<open>\<^verbatim>\<open>posixpath.join\<close> of two parts.\<close>

definition join :: "string \<Rightarrow> string \<Rightarrow> string" where
  "join a b =
     (if b \<noteq> [] \<and> hd b = sep then b
      else if a = [] \<or> last a = sep then a @ b
      else a @ [sep] @ b)"

section \<open>The filesystem\<close>

text \<open>
  A filesystem node is a regular file with its content or a directory with its named
  entries. A location is the list of names leading to it from the root.
\<close>

datatype node = File bytes | Dir "(string \<times> node) list"

definition child :: "node \<Rightarrow> string \<Rightarrow> node option" where
  "child n c = (case n of File b \<Rightarrow> None | Dir es \<Rightarrow> map_of es c)"

fun lookup :: "node \<Rightarrow> string list \<Rightarrow> node option" where
  "lookup n [] = Some n"
| "lookup n (c # cs) = (case child n c of None \<Rightarrow> None | Some ch \<Rightarrow> lookup ch cs)"

text \<open>
  \<open>put n p v\<close> places \<open>v\<close> at location \<open>p\<close> below \<open>n\<close>, creating or replacing
  the last entry; it needs the directory that holds the entry to exist.
\<close>

fun put :: "node \<Rightarrow> string list \<Rightarrow> node \<Rightarrow> node" where
  "put n [] v = v"
| "put n (c # cs) v =
     (case n of
        File b \<Rightarrow> n
      | Dir es \<Rightarrow>
          (if cs = [] then Dir (AList.update c v es)
           else (case map_of es c of
                   None \<Rightarrow> n
                 | Some ch \<Rightarrow> Dir (AList.update c (put ch cs v) es))))"

text \<open>What a caller can observe at a location: a file's bytes, or that it is a directory.\<close>

datatype entry = EFile bytes | EDir

definition kind_of :: "node \<Rightarrow> entry" where
  "kind_of n = (case n of File b \<Rightarrow> EFile b | Dir es \<Rightarrow> EDir)"

definition kind_at :: "node \<Rightarrow> string list \<Rightarrow> entry option" where
  "kind_at n p = map_option kind_of (lookup n p)"

definition is_dir_at :: "node \<Rightarrow> string list \<Rightarrow> bool" where
  "is_dir_at n p = (case lookup n p of Some (Dir es) \<Rightarrow> True | _ \<Rightarrow> False)"

text \<open>
  Path resolution, as the kernel does it: segment by segment from the root or from
  the working directory. Before a segment is taken, the location reached so far must
  be a directory; an empty segment and \<^verbatim>\<open>.\<close> stay, \<^verbatim>\<open>..\<close> goes up.
  The result is the location the path names, which need not exist itself.
\<close>

fun walk :: "node \<Rightarrow> string list \<Rightarrow> string list \<Rightarrow> error + string list" where
  "walk r cur [] = Inr cur"
| "walk r cur (c # cs) =
     (case lookup r cur of
        None \<Rightarrow> Inl FileNotFoundError
      | Some (File b) \<Rightarrow> Inl NotADirectoryError
      | Some (Dir es) \<Rightarrow>
          (if c = [] \<or> c = ''.'' then walk r cur cs
           else if c = ''..'' then walk r (butlast cur) cs
           else walk r (cur @ [c]) cs))"

definition resolve :: "node \<Rightarrow> string list \<Rightarrow> string \<Rightarrow> error + string list" where
  "resolve r wd p =
     (if p = [] then Inl FileNotFoundError
      else walk r (if hd p = sep then [] else wd) (split_sep p))"

section \<open>The persistent store and the process state\<close>

text \<open>
  Modelled from the spec: the persistent store (\<^verbatim>\<open>requre.storage\<close>) is not part of
  the module. Its state is the write/read flag, the name of the storage file (unset
  when no storage file is configured) and the values kept under key sequences.
\<close>

record store =
  is_write_mode :: bool
  storage_file :: "string option"
  storage_object :: "(key list \<times> blob) list"

text \<open>
  The state a call runs in: the filesystem root, the working directory (a location),
  the store, and the answer of \<^verbatim>\<open>get_if_recording()\<close>.
\<close>

record world =
  root :: node
  cwd :: "string list"
  storage :: store
  recording :: bool

text \<open>
  \<^verbatim>\<open>_copy_logic\<close> receives the store object as an argument and uses its mode flag
  and its two methods; they act on the store's state only.
\<close>

record pers_storage =
  ps_is_write_mode :: "store \<Rightarrow> bool"
  ps_store :: "key list \<Rightarrow> blob \<Rightarrow> store \<Rightarrow> error + store"
  ps_read :: "key list \<Rightarrow> store \<Rightarrow> error + blob"

text \<open>
  Modelled from the spec: \<^verbatim>\<open>store(keys, values)\<close> fails outside write mode and
  otherwise keeps the value under the key sequence; \<^verbatim>\<open>read(keys)\<close> fails with a
  \<^verbatim>\<open>PersistentStorageException\<close> when no value exists under the key sequence.
\<close>

definition store_values :: "key list \<Rightarrow> blob \<Rightarrow> store \<Rightarrow> error + store" where
  "store_values keys v s =
     (if is_write_mode s
      then Inr (s\<lparr>storage_object := AList.update keys v (storage_object s)\<rparr>)
      else Inl PersistentStorageException)"

definition read_values :: "key list \<Rightarrow> store \<Rightarrow> error + blob" where
  "read_values keys s =
     (case map_of (storage_object s) keys of
        None \<Rightarrow> Inl PersistentStorageException
      | Some v \<Rightarrow> Inr v)"

definition STORAGE :: pers_storage where
  "STORAGE = \<lparr>ps_is_write_mode = is_write_mode, ps_store = store_values,
     ps_read = read_values\<rparr>"

section \<open>Library calls on the filesystem\<close>

definition os_getcwd :: "world \<Rightarrow> string" where
  "os_getcwd w = (if cwd w = [] then [sep] else concat (map (\<lambda>c. sep # c) (cwd w)))"

definition os_path_exists :: "world \<Rightarrow> string \<Rightarrow> bool" where
  "os_path_exists w p =
     (case resolve (root w) (cwd w) p of
        Inl e \<Rightarrow> False
      | Inr loc \<Rightarrow> lookup (root w) loc \<noteq> None)"

definition os_path_isdir :: "world \<Rightarrow> string \<Rightarrow> bool" where
  "os_path_isdir w p =
     (case resolve (root w) (cwd w) p of
        Inl e \<Rightarrow> False
      | Inr loc \<Rightarrow> is_dir_at (root w) loc)"

definition os_chdir :: "string \<Rightarrow> world \<Rightarrow> error + world" where
  "os_chdir p w =
     (case resolve (root w) (cwd w) p of
        Inl e \<Rightarrow> Inl e
      | Inr loc \<Rightarrow>
          (case lookup (root w) loc of
             None \<Rightarrow> Inl FileNotFoundError
           | Some (File b) \<Rightarrow> Inl NotADirectoryError
           | Some (Dir es) \<Rightarrow> Inr (w\<lparr>cwd := loc\<rparr>)))"

text \<open>\<^verbatim>\<open>open(p, "wb")\<close>, one \<^verbatim>\<open>write\<close> and the close: creates or truncates.\<close>

definition open_wb :: "string \<Rightarrow> bytes \<Rightarrow> world \<Rightarrow> error + world" where
  "open_wb p content w =
     (case resolve (root w) (cwd w) p of
        Inl e \<Rightarrow> Inl e
      | Inr loc \<Rightarrow>
          (case lookup (root w) loc of
             Some (Dir es) \<Rightarrow> Inl IsADirectoryError
           | _ \<Rightarrow> Inr (w\<lparr>root := put (root w) loc (File content)\<rparr>)))"

definition os_mkdir :: "string \<Rightarrow> world \<Rightarrow> error + world" where
  "os_mkdir p w =
     (case resolve (root w) (cwd w) p of
        Inl e \<Rightarrow> Inl e
      | Inr loc \<Rightarrow>
          (case lookup (root w) loc of
             Some n \<Rightarrow> Inl FileExistsError
           | None \<Rightarrow> Inr (w\<lparr>root := put (root w) loc (Dir [])\<rparr>)))"

text \<open>
  \<^verbatim>\<open>os.makedirs\<close>: like resolution, but a missing directory on the way is created.
\<close>

fun mkwalk :: "node \<Rightarrow> string list \<Rightarrow> string list \<Rightarrow> error + node" where
  "mkwalk r cur [] = Inr r"
| "mkwalk r cur (c # cs) =
     (case lookup r cur of
        None \<Rightarrow> Inl FileNotFoundError
      | Some (File b) \<Rightarrow> Inl NotADirectoryError
      | Some (Dir es) \<Rightarrow>
          (if c = [] \<or> c = ''.'' then mkwalk r cur cs
           else if c = ''..'' then mkwalk r (butlast cur) cs
           else (case lookup r (cur @ [c]) of
                   None \<Rightarrow> mkwalk (put r (cur @ [c]) (Dir [])) (cur @ [c]) cs
                 | Some n \<Rightarrow> mkwalk r (cur @ [c]) cs)))"

definition os_makedirs :: "string \<Rightarrow> world \<Rightarrow> error + world" where
  "os_makedirs p w =
     (if p = [] then Inl FileNotFoundError
      else if os_path_exists w p then Inl FileExistsError
      else (case mkwalk (root w) (if hd p = sep then [] else cwd w) (split_sep p) of
              Inl e \<Rightarrow> Inl e
            | Inr r' \<Rightarrow> Inr (w\<lparr>root := r'\<rparr>)))"

section \<open>The tar archive (\<^verbatim>\<open>tarfile\<close>)\<close>

text \<open>
  \<^verbatim>\<open>TarFile.add(name)\<close>: the entry itself and, for a directory, its entries in
  sorted order, each under the joined name, recursively.
\<close>

function tar_members :: "string \<Rightarrow> node \<Rightarrow> tarinfo list" where
  "tar_members arcname (File b) = [\<lparr>name = arcname, ttype = REGTYPE b\<rparr>]"
| "tar_members arcname (Dir es) =
     \<lparr>name = arcname, ttype = DIRTYPE\<rparr> #
     concat (map (\<lambda>e. tar_members (join arcname (fst e)) (snd e)) (sort_key fst es))"
  by pat_completeness auto
termination
proof (relation "measure (\<lambda>(a, n). size n)")
  show "wf (measure (\<lambda>(a :: string, n :: node). size n))"
    by simp
next
  fix arcname :: string and es :: "(string \<times> node) list" and e
  assume "e \<in> set (sort_key fst es)"
  then have "e \<in> set es"
    by simp
  then have "size (snd e) < Suc (size_list (size_prod (\<lambda>x. 0) size) es)"
    by (induction es) (auto simp: less_Suc_eq)
  then show "((join arcname (fst e), snd e), (arcname, Dir es))
      \<in> measure (\<lambda>(a, n). size n)"
    by simp
qed

definition tar_add :: "string \<Rightarrow> world \<Rightarrow> error + tarinfo list" where
  "tar_add nm w =
     (case resolve (root w) (cwd w) nm of
        Inl e \<Rightarrow> Inl e
      | Inr loc \<Rightarrow>
          (case lookup (root w) loc of
             None \<Rightarrow> Inl FileNotFoundError
           | Some n \<Rightarrow> Inr (tar_members nm n)))"

text \<open>
  \<^verbatim>\<open>TarFile.extract(member, path)\<close>: the target is the member's name joined to
  \<open>path\<close>; missing upper directories are created; a regular member is written, a
  directory member is made unless a directory is already there.
\<close>

definition makedir :: "string \<Rightarrow> world \<Rightarrow> error + world" where
  "makedir targetpath w =
     (case os_mkdir targetpath w of
        Inl e \<Rightarrow>
          (if e = FileExistsError \<and> os_path_isdir w targetpath then Inr w else Inl e)
      | Inr w' \<Rightarrow> Inr w')"

definition tar_extract :: "tarinfo \<Rightarrow> string \<Rightarrow> world \<Rightarrow> error + world" where
  "tar_extract m path w =
     (let targetpath = rstrip_sep (join path (name m));
          upperdirs = dirname targetpath
      in case (if upperdirs \<noteq> [] \<and> \<not> os_path_exists w upperdirs
               then os_makedirs upperdirs w else Inr w) of
           Inl e \<Rightarrow> Inl e
         | Inr w1 \<Rightarrow>
             (case ttype m of
                REGTYPE b \<Rightarrow> open_wb targetpath b w1
              | DIRTYPE \<Rightarrow> makedir targetpath w1))"

section \<open>\<^verbatim>\<open>StoreFiles\<close>\<close>

definition cls_name :: string where
  "cls_name = ''StoreFiles''"

definition basic_ps_keys :: "key list" where
  "basic_ps_keys = [KStr ''X'', KStr ''file'', KStr ''tar'']"

text \<open>A path argument must be a string: the \<^verbatim>\<open>os.path\<close> functions raise otherwise.\<close>

definition as_path :: "pyval \<Rightarrow> error + string" where
  "as_path v = (case v of PStr s \<Rightarrow> Inr s | _ \<Rightarrow> Inl TypeError)"

text \<open>
  \<^verbatim>\<open>_test_identifier\<close>: the base name of the store's storage file;
  \<^verbatim>\<open>os.path.basename\<close> raises when the storage file is unset.
\<close>

definition test_identifier :: "world \<Rightarrow> error + string" where
  "test_identifier w =
     (case storage_file (storage w) of
        None \<Rightarrow> Inl TypeError
      | Some f \<Rightarrow> Inr (basename f))"

text \<open>The body of the \<^verbatim>\<open>try\<close> in the write branch of \<^verbatim>\<open>_copy_logic\<close>.\<close>

definition pack_try ::
  "pers_storage \<Rightarrow> pyval \<Rightarrow> key list \<Rightarrow> world \<Rightarrow> (error + unit) \<times> world" where
  "pack_try ps pathname keys w =
     (case as_path pathname of
        Inl e \<Rightarrow> (Inl e, w)
      | Inr p \<Rightarrow>
          (let artifact_name = basename p; artifact_path = dirname p
           in case os_chdir artifact_path w of
                Inl e \<Rightarrow> (Inl e, w)
              | Inr w1 \<Rightarrow>
                  (case tar_add artifact_name w1 of
                     Inl e \<Rightarrow> (Inl e, w1)
                   | Inr ms \<Rightarrow>
                       (case ps_store ps (basic_ps_keys @ keys) (TarXz ms) (storage w1) of
                          Inl e \<Rightarrow> (Inl e, w1)
                        | Inr s' \<Rightarrow> (Inr (), w1\<lparr>storage := s'\<rparr>)))))"

text \<open>
  The loop of the read branch: every member loses the first segment of its name, or
  becomes \<^verbatim>\<open>.\<close> when it has one segment only, and is extracted below the path.
\<close>

definition strip_topdir :: "tarinfo \<Rightarrow> tarinfo" where
  "strip_topdir tar_item =
     (if length (split1 (name tar_item)) > 1
      then tar_item\<lparr>name := split1 (name tar_item) ! 1\<rparr>
      else tar_item\<lparr>name := ''.''\<rparr>)"

fun extract_loop :: "tarinfo list \<Rightarrow> pyval \<Rightarrow> world \<Rightarrow> (error + unit) \<times> world" where
  "extract_loop [] pathname w = (Inr (), w)"
| "extract_loop (tar_item # rest) pathname w =
     (case as_path pathname of
        Inl e \<Rightarrow> (Inl e, w)
      | Inr p \<Rightarrow>
          (case tar_extract (strip_topdir tar_item) p w of
             Inl e \<Rightarrow> (Inl e, w)
           | Inr w' \<Rightarrow> extract_loop rest pathname w'))"

text \<open>What the read branch does with the members of the archive it has opened.\<close>

definition extractfile_read :: "tarinfo \<Rightarrow> bytes" where
  "extractfile_read m = (case ttype m of REGTYPE b \<Rightarrow> b | DIRTYPE \<Rightarrow> [])"

definition unpack_members ::
  "tarinfo list \<Rightarrow> pyval \<Rightarrow> world \<Rightarrow> (error + unit) \<times> world" where
  "unpack_members members pathname w =
     (case members of
        [] \<Rightarrow> (Inl IndexError, w)
      | tarinfo_1st_member # rest \<Rightarrow>
          (if isfile tarinfo_1st_member
           then (case as_path pathname of
                   Inl e \<Rightarrow> (Inl e, w)
                 | Inr p \<Rightarrow>
                     (case open_wb p (extractfile_read tarinfo_1st_member) w of
                        Inl e \<Rightarrow> (Inl e, w)
                      | Inr w' \<Rightarrow> (Inr (), w')))
           else extract_loop members pathname w))"

text \<open>
  \<^verbatim>\<open>_copy_logic\<close>. In write mode the \<^verbatim>\<open>finally\<close> clause changes back to the
  saved working directory; an error of that change would take the place of the
  body's outcome.
\<close>

definition copy_logic ::
  "pers_storage \<Rightarrow> pyval \<Rightarrow> key list \<Rightarrow> world \<Rightarrow> (error + unit) \<times> world" where
  "copy_logic pers pathname keys w =
     (let original_cwd = os_getcwd w
      in if ps_is_write_mode pers (storage w)
         then (case pack_try pers pathname keys w of
                 (r, w1) \<Rightarrow>
                   (case os_chdir original_cwd w1 of
                      Inl e \<Rightarrow> (Inl e, w1)
                    | Inr w2 \<Rightarrow> (r, w2)))
         else (case ps_read pers (basic_ps_keys @ keys) (storage w) of
                 Inl e \<Rightarrow> (Inl e, w)
               | Inr v \<Rightarrow>
                   (case tar_open_read v of
                      Inl e \<Rightarrow> (Inl e, w)
                    | Inr members \<Rightarrow> unpack_members members pathname w)))"

section \<open>The decorators\<close>

text \<open>
  A Python callable takes positional and keyword arguments and the state, and returns
  or raises. \<^verbatim>\<open>store_function_output\<close> is not part of the module: the decorators take
  it as the parameter \<open>sfo\<close>.
\<close>

type_synonym pyfunc =
  "pyval list \<Rightarrow> (string \<times> pyval) list \<Rightarrow> world \<Rightarrow> (error + pyval) \<times> world"

definition return_value :: "(pyfunc \<Rightarrow> pyfunc) \<Rightarrow> pyfunc \<Rightarrow> pyfunc" where
  "return_value sfo func args kwargs w =
     (if \<not> recording w then func args kwargs w
      else (case sfo func args kwargs w of
              (Inl e, w1) \<Rightarrow> (Inl e, w1)
            | (Inr output, w1) \<Rightarrow>
                (case test_identifier w1 of
                   Inl e \<Rightarrow> (Inl e, w1)
                 | Inr tid \<Rightarrow>
                     (case copy_logic STORAGE output [KStr cls_name, KStr tid] w1 of
                        (Inl e, w2) \<Rightarrow> (Inl e, w2)
                      | (Inr u, w2) \<Rightarrow> (Inr output, w2)))))"

text \<open>The body of both loops of \<^verbatim>\<open>guess_args\<close>, for one argument and its key.\<close>

definition guess_one :: "key list \<Rightarrow> pyval \<Rightarrow> world \<Rightarrow> (error + unit) \<times> world" where
  "guess_one keys arg w =
     (case arg of
        PStr s \<Rightarrow>
          (if is_write_mode (storage w)
           then (if os_path_exists w s then copy_logic STORAGE arg keys w else (Inr (), w))
           else (case copy_logic STORAGE arg keys w of
                   (Inl e, w') \<Rightarrow>
                     (if e = PersistentStorageException then (Inr (), w') else (Inl e, w'))
                 | (Inr u, w') \<Rightarrow> (Inr u, w')))
      | _ \<Rightarrow> (Inr (), w))"

fun guess_positions ::
  "key list \<Rightarrow> nat \<Rightarrow> pyval list \<Rightarrow> world \<Rightarrow> (error + unit) \<times> world" where
  "guess_positions ids position [] w = (Inr (), w)"
| "guess_positions ids position (arg # args) w =
     (case guess_one (ids @ [KInt (int position)]) arg w of
        (Inl e, w') \<Rightarrow> (Inl e, w')
      | (Inr u, w') \<Rightarrow> guess_positions ids (Suc position) args w')"

fun guess_keywords ::
  "key list \<Rightarrow> (string \<times> pyval) list \<Rightarrow> world \<Rightarrow> (error + unit) \<times> world" where
  "guess_keywords ids [] w = (Inr (), w)"
| "guess_keywords ids ((k, v) # kwargs) w =
     (case guess_one (ids @ [KStr k]) v w of
        (Inl e, w') \<Rightarrow> (Inl e, w')
      | (Inr u, w') \<Rightarrow> guess_keywords ids kwargs w')"

definition guess_args :: "(pyfunc \<Rightarrow> pyfunc) \<Rightarrow> pyfunc \<Rightarrow> pyfunc" where
  "guess_args sfo func args kwargs w =
     (case test_identifier w of
        Inl e \<Rightarrow> (Inl e, w)
      | Inr tid \<Rightarrow>
          (let class_test_id_list = [KStr cls_name, KStr tid]
           in if \<not> recording w then func args kwargs w
              else (case sfo func args kwargs w of
                      (Inl e, w1) \<Rightarrow> (Inl e, w1)
                    | (Inr output, w1) \<Rightarrow>
                        (case guess_positions class_test_id_list 0 args w1 of
                           (Inl e, w2) \<Rightarrow> (Inl e, w2)
                         | (Inr u, w2) \<Rightarrow>
                             (case guess_keywords class_test_id_list kwargs w2 of
                                (Inl e, w3) \<Rightarrow> (Inl e, w3)
                              | (Inr u', w3) \<Rightarrow> (Inr output, w3))))))"

text \<open>\<^verbatim>\<open>args[position]\<close>: a negative index counts from the end.\<close>

definition py_index :: "pyval list \<Rightarrow> int \<Rightarrow> error + pyval" where
  "py_index args position =
     (if 0 \<le> position \<and> position < int (length args)
      then Inr (args ! nat position)
      else if position < 0 \<and> - int (length args) \<le> position
      then Inr (args ! nat (int (length args) + position))
      else Inl IndexError)"

fun reference_loop ::
  "key list \<Rightarrow> (string \<times> int) list \<Rightarrow> pyval list \<Rightarrow> (string \<times> pyval) list \<Rightarrow>
   world \<Rightarrow> (error + unit) \<times> world" where
  "reference_loop ids [] args kwargs w = (Inr (), w)"
| "reference_loop ids ((k, position) # files_params) args kwargs w =
     (case (case map_of kwargs k of Some v \<Rightarrow> Inr v | None \<Rightarrow> py_index args position) of
        Inl e \<Rightarrow> (Inl e, w)
      | Inr param \<Rightarrow>
          (case copy_logic STORAGE param (ids @ [KStr k]) w of
             (Inl e, w') \<Rightarrow> (Inl e, w')
           | (Inr u, w') \<Rightarrow> reference_loop ids files_params args kwargs w'))"

definition arg_references ::
  "(string \<times> int) list \<Rightarrow> (pyfunc \<Rightarrow> pyfunc) \<Rightarrow> pyfunc \<Rightarrow> pyfunc" where
  "arg_references files_params sfo func args kwargs w =
     (case test_identifier w of
        Inl e \<Rightarrow> (Inl e, w)
      | Inr tid \<Rightarrow>
          (let class_test_id_list = [KStr cls_name, KStr tid]
           in if \<not> recording w then func args kwargs w
              else (case sfo func args kwargs w of
                      (Inl e, w1) \<Rightarrow> (Inl e, w1)
                    | (Inr output, w1) \<Rightarrow>
                        (case reference_loop class_test_id_list files_params args kwargs w1 of
                           (Inl e, w2) \<Rightarrow> (Inl e, w2)
                         | (Inr u, w2) \<Rightarrow> (Inr output, w2)))))"

section \<open>Well-formed states and example states\<close>

text \<open>
  A name of a directory entry: not empty, no separator, neither \<^verbatim>\<open>.\<close> nor
  \<^verbatim>\<open>..\<close>. In a well-formed state the working directory is an existing directory
  reached by such names.
\<close>

definition plain_name :: "string \<Rightarrow> bool" where
  "plain_name c = (c \<noteq> [] \<and> sep \<notin> set c \<and> c \<noteq> ''.'' \<and> c \<noteq> ''..'')"

definition wf_world :: "world \<Rightarrow> bool" where
  "wf_world w = (is_dir_at (root w) (cwd w) \<and> list_all plain_name (cwd w))"

text \<open>
  The directory of the record-pass scenario, with \<^verbatim>\<open>a.txt\<close> and \<^verbatim>\<open>b/c.txt\<close>,
  inside the working directory \<^verbatim>\<open>/w\<close>; the storage file is \<^verbatim>\<open>/rec/test1\<close>.
\<close>

definition src_dir :: node where
  "src_dir = Dir [(''b'', Dir [(''c.txt'', File [3])]), (''a.txt'', File [1, 2])]"

definition w_record :: world where
  "w_record =
     \<lparr>root = Dir [(''w'', Dir [(''src_dir'', src_dir), (''f.bin'', File [9])]),
                  (''rec'', Dir [])],
      cwd = [''w''],
      storage = \<lparr>is_write_mode = True, storage_file = Some ''/rec/test1'',
                  storage_object = []\<rparr>,
      recording = True\<rparr>"

text \<open>A state with recording off and no storage file configured.\<close>

definition w_idle :: world where
  "w_idle =
     \<lparr>root = Dir [(''w'', Dir [])],
      cwd = [''w''],
      storage = \<lparr>is_write_mode = False, storage_file = None, storage_object = []\<rparr>,
      recording = False\<rparr>"


text \<open>
  A wrapped function that returns its first positional argument and leaves the state
  alone, and an output-capture wrapper that calls through.
\<close>

definition f_first :: pyfunc where
  "f_first args kwargs w = ((case args of [] \<Rightarrow> Inr PNone | a # as \<Rightarrow> Inr a), w)"

definition sfo_through :: "pyfunc \<Rightarrow> pyfunc" where
  "sfo_through func = func"

text \<open>
  Two states agree on everything but the values kept in the store.
\<close>

definition same_but_values :: "world \<Rightarrow> world \<Rightarrow> bool" where
  "same_but_values w w' =
     (root w' = root w \<and> cwd w' = cwd w \<and> recording w' = recording w
      \<and> is_write_mode (storage w') = is_write_mode (storage w)
      \<and> storage_file (storage w') = storage_file (storage w))"






definition below :: "string \<Rightarrow> string list \<Rightarrow> string" where
  "below a q = a @ concat (map (\<lambda>c. sep # c) q)"



section \<open>Path strings and resolution: basic facts\<close>

lemma split_sep_nonempty [simp]: "split_sep s \<noteq> []"
  by (induction s) auto

lemma split_sep_no_sep: "sep \<notin> set s \<Longrightarrow> split_sep s = [s]"
  by (induction s) auto

lemma split_sep_append:
  "sep \<notin> set a \<Longrightarrow> split_sep (a @ sep # b) = a # split_sep b"
  by (induction a) auto

lemma split_sep_getcwd:
  "list_all (\<lambda>c. sep \<notin> set c) cs \<Longrightarrow> cs \<noteq> [] \<Longrightarrow>
   split_sep (concat (map (\<lambda>c. sep # c) cs)) = [] # cs"
proof (induction cs)
  case Nil
  then show ?case by simp
next
  case (Cons c cs)
  show ?case
  proof (cases "cs = []")
    case True
    with Cons.prems show ?thesis by (simp add: split_sep_no_sep)
  next
    case False
    with Cons have "split_sep (concat (map (\<lambda>c. sep # c) cs)) = [] # cs" by simp
    moreover have "concat (map (\<lambda>c. sep # c) cs) = sep # tl (concat (map (\<lambda>c. sep # c) cs))"
      using False by (cases cs) auto
    ultimately have "split_sep (tl (concat (map (\<lambda>c. sep # c) cs))) = cs"
      by (metis list.inject list.simps(3) split_sep.simps(2))
    then show ?thesis using Cons.prems False
      by (cases cs) (auto simp: split_sep_append)
  qed
qed

lemma lookup_append:
  "lookup n (xs @ ys) = (case lookup n xs of None \<Rightarrow> None | Some m \<Rightarrow> lookup m ys)"
  by (induction xs arbitrary: n) (auto split: option.splits)

lemma lookup_File: "lookup (File b) p = (if p = [] then Some (File b) else None)"
  by (cases p) (auto simp: child_def)

lemma is_dir_at_prefix: "is_dir_at r (xs @ ys) \<Longrightarrow> is_dir_at r xs"
  by (auto simp: is_dir_at_def lookup_append lookup_File
      split: option.splits node.splits if_splits)

lemma walk_plain:
  "list_all plain_name cs \<Longrightarrow> is_dir_at r (cur @ cs) \<Longrightarrow> walk r cur cs = Inr (cur @ cs)"
proof (induction cs arbitrary: cur)
  case Nil
  then show ?case by simp
next
  case (Cons c cs)
  from Cons.prems(2) have "is_dir_at r cur" by (rule is_dir_at_prefix)
  moreover from Cons have "walk r (cur @ [c]) cs = Inr ((cur @ [c]) @ cs)" by simp
  ultimately show ?case using Cons.prems(1)
    by (auto simp: is_dir_at_def plain_name_def split: option.splits node.splits)
qed

lemma resolve_getcwd:
  assumes "wf_world w"
  shows "resolve (root w) wd (os_getcwd w) = Inr (cwd w)"
proof (cases "cwd w = []")
  case True
  with assms show ?thesis
    by (auto simp: resolve_def os_getcwd_def wf_world_def is_dir_at_def
        split: option.splits node.splits)
next
  case False
  from assms have pl: "list_all plain_name (cwd w)" and d: "is_dir_at (root w) (cwd w)"
    by (auto simp: wf_world_def)
  from pl have "list_all (\<lambda>c. sep \<notin> set c) (cwd w)"
    by (auto simp: list_all_iff plain_name_def)
  with False have sp: "split_sep (os_getcwd w) = [] # cwd w"
    by (simp add: os_getcwd_def split_sep_getcwd)
  from False have hd: "os_getcwd w \<noteq> [] \<and> hd (os_getcwd w) = sep"
    by (cases "cwd w") (auto simp: os_getcwd_def)
  from d have "is_dir_at (root w) []"
    using is_dir_at_prefix[of "root w" "[]" "cwd w"] by simp
  moreover from pl d have "walk (root w) [] (cwd w) = Inr (cwd w)"
    using walk_plain[of "cwd w" "root w" "[]"] by simp
  ultimately show ?thesis using sp hd
    by (auto simp: resolve_def is_dir_at_def split: option.splits node.splits)
qed

section \<open>What each operation leaves alone\<close>

lemma os_chdir_getcwd:
  assumes "wf_world w" and "root w1 = root w"
  shows "os_chdir (os_getcwd w) w1 = Inr (w1\<lparr>cwd := cwd w\<rparr>)"
proof -
  have "resolve (root w1) (cwd w1) (os_getcwd w) = Inr (cwd w)"
    using resolve_getcwd[OF assms(1)] assms(2) by simp
  moreover have "is_dir_at (root w1) (cwd w)"
    using assms by (simp add: wf_world_def)
  ultimately show ?thesis
    by (auto simp: os_chdir_def is_dir_at_def split: option.splits node.splits)
qed

lemma os_chdir_frame:
  "os_chdir p w = Inr w1 \<Longrightarrow>
   root w1 = root w \<and> storage w1 = storage w \<and> recording w1 = recording w"
  by (auto simp: os_chdir_def split: sum.splits option.splits node.splits)

lemma pack_try_frame:
  "pack_try pers pathname keys w = (r, w1) \<Longrightarrow>
   root w1 = root w \<and> recording w1 = recording w"
  by (auto simp: pack_try_def Let_def split: sum.splits dest: os_chdir_frame)










lemma copy_logic_write_unfold:
  assumes "wf_world w" and "ps_is_write_mode pers (storage w)"
  shows "copy_logic pers pathname keys w =
           (fst (pack_try pers pathname keys w),
            (snd (pack_try pers pathname keys w))\<lparr>cwd := cwd w\<rparr>)"
proof -
  obtain r w1 where p: "pack_try pers pathname keys w = (r, w1)"
    by (cases "pack_try pers pathname keys w")
  then have "root w1 = root w" by (auto dest: pack_try_frame)
  with assms(1) have "os_chdir (os_getcwd w) w1 = Inr (w1\<lparr>cwd := cwd w\<rparr>)"
    by (rule os_chdir_getcwd)
  with p assms(2) show ?thesis
    by (simp add: copy_logic_def)
qed

section \<open>The working directory after packing\<close>



section \<open>An archive without members\<close>



section \<open>The decorators while recording is off\<close>

lemma return_value_not_recording:
  "\<not> recording w \<Longrightarrow> return_value sfo func args kwargs w = func args kwargs w"
  by (simp add: return_value_def)

lemma guess_args_not_recording:
  "\<not> recording w \<Longrightarrow> storage_file (storage w) = Some sf \<Longrightarrow>
   guess_args sfo func args kwargs w = func args kwargs w"
  by (simp add: guess_args_def test_identifier_def)

lemma arg_references_not_recording:
  "\<not> recording w \<Longrightarrow> storage_file (storage w) = Some sf \<Longrightarrow>
   arg_references files_params sfo func args kwargs w = func args kwargs w"
  by (simp add: arg_references_def test_identifier_def)

text \<open>
  Claim C2. With recording off \<^verbatim>\<open>return_value\<close> calls straight through. The other
  two decorators build the key prefix (\<^verbatim>\<open>cls._test_identifier()\<close>, which reads the
  store's storage file) before they look at the recording predicate: in the state with
  recording off and no storage file configured the wrapped function returns, and the
  calls decorated by \<^verbatim>\<open>guess_args\<close> and \<^verbatim>\<open>arg_references\<close> raise instead.
\<close>

theorem not_recording_key_prefix_raises:
  "\<not> recording w_idle
   \<and> f_first [PStr ''x''] [] w_idle = (Inr (PStr ''x''), w_idle)
   \<and> return_value sfo_through f_first [PStr ''x''] [] w_idle = (Inr (PStr ''x''), w_idle)
   \<and> guess_args sfo_through f_first [PStr ''x''] [] w_idle = (Inl TypeError, w_idle)
   \<and> arg_references [(''p'', 0)] sfo_through f_first [PStr ''x''] [] w_idle
       = (Inl TypeError, w_idle)"
  by (simp add: w_idle_def f_first_def return_value_def guess_args_def arg_references_def
      test_identifier_def)

section \<open>Replay through \<^verbatim>\<open>return_value\<close>\<close>




section \<open>Write mode changes the store only\<close>

lemma same_but_values_refl [simp]: "same_but_values w w"
  by (simp add: same_but_values_def)

lemma same_but_values_trans:
  "same_but_values w w1 \<Longrightarrow> same_but_values w1 w2 \<Longrightarrow> same_but_values w w2"
  by (simp add: same_but_values_def)

lemma same_but_values_exists:
  "same_but_values w w' \<Longrightarrow> os_path_exists w' s = os_path_exists w s"
  by (auto simp: same_but_values_def os_path_exists_def split: sum.splits)

lemma same_but_values_wf:
  "same_but_values w w' \<Longrightarrow> wf_world w' = wf_world w"
  by (simp add: same_but_values_def wf_world_def)

lemma pack_try_STORAGE_values:
  assumes "pack_try STORAGE pathname keys w = (r, w1)"
  shows "root w1 = root w \<and> recording w1 = recording w
    \<and> is_write_mode (storage w1) = is_write_mode (storage w)
    \<and> storage_file (storage w1) = storage_file (storage w)
    \<and> (\<forall>k. k \<noteq> basic_ps_keys @ keys \<longrightarrow>
          map_of (storage_object (storage w1)) k = map_of (storage_object (storage w)) k)"
  using assms
  by (auto simp: pack_try_def Let_def STORAGE_def store_values_def update_conv'
      split: sum.splits if_splits dest!: os_chdir_frame)

lemma copy_logic_write_values:
  assumes "wf_world w" and "is_write_mode (storage w)"
    and "copy_logic STORAGE pathname keys w = (r, w')"
  shows "same_but_values w w'
    \<and> (\<forall>k. k \<noteq> basic_ps_keys @ keys \<longrightarrow>
          map_of (storage_object (storage w')) k = map_of (storage_object (storage w)) k)"
proof -
  obtain r1 w1 where p: "pack_try STORAGE pathname keys w = (r1, w1)"
    by (cases "pack_try STORAGE pathname keys w")
  have "ps_is_write_mode STORAGE (storage w)"
    using assms(2) by (simp add: STORAGE_def)
  from copy_logic_write_unfold[OF assms(1) this, of pathname keys] p assms(3)
  have "w' = w1\<lparr>cwd := cwd w\<rparr>" by simp
  with pack_try_STORAGE_values[OF p] show ?thesis
    by (simp add: same_but_values_def)
qed

lemma guess_one_write:
  assumes "wf_world w" and "is_write_mode (storage w)"
    and "guess_one keys arg w = (r, w')"
  shows "same_but_values w w'
    \<and> (\<forall>k. map_of (storage_object (storage w')) k \<noteq> map_of (storage_object (storage w)) k
          \<longrightarrow> k = basic_ps_keys @ keys \<and> (\<exists>s. arg = PStr s \<and> os_path_exists w s))"
proof (cases arg)
  case (PStr s)
  show ?thesis
  proof (cases "os_path_exists w s")
    case True
    with PStr assms have "copy_logic STORAGE arg keys w = (r, w')"
      by (simp add: guess_one_def)
    from copy_logic_write_values[OF assms(1,2) this] True PStr show ?thesis
      by auto
  next
    case False
    with PStr assms show ?thesis by (simp add: guess_one_def)
  qed
qed (use assms in \<open>auto simp: guess_one_def\<close>)

lemma guess_one_write_missing:
  "is_write_mode (storage w) \<Longrightarrow> \<not> os_path_exists w s \<Longrightarrow>
   guess_one keys (PStr s) w = (Inr (), w)"
  by (simp add: guess_one_def)

lemma guess_positions_write:
  assumes "wf_world w" and "is_write_mode (storage w)"
    and "guess_positions ids i args w = (r, w')"
  shows "same_but_values w w'
    \<and> (\<forall>k. map_of (storage_object (storage w')) k \<noteq> map_of (storage_object (storage w)) k
          \<longrightarrow> (\<exists>j s. j < length args \<and> args ! j = PStr s \<and> os_path_exists w s
                  \<and> k = basic_ps_keys @ ids @ [KInt (int (i + j))]))"
  using assms
proof (induction args arbitrary: i w)
  case Nil
  then show ?case by simp
next
  case (Cons a args)
  obtain r1 w1 where g: "guess_one (ids @ [KInt (int i)]) a w = (r1, w1)"
    by (cases "guess_one (ids @ [KInt (int i)]) a w")
  note one = guess_one_write[OF Cons.prems(1,2) g]
  show ?case
  proof (cases r1)
    case (Inl e)
    with g Cons.prems(3) have "w' = w1" by simp
    with one show ?thesis by fastforce
  next
    case (Inr u)
    with g Cons.prems(3) have rest: "guess_positions ids (Suc i) args w1 = (r, w')"
      by simp
    from one have s1: "same_but_values w w1" by simp
    then have wf1: "wf_world w1" and wm1: "is_write_mode (storage w1)"
      using Cons.prems(1,2) by (simp_all add: same_but_values_wf) (simp add: same_but_values_def)
    note ih = Cons.IH[OF wf1 wm1 rest]
    have "same_but_values w w'"
      using s1 ih by (blast intro: same_but_values_trans)
    moreover have "\<exists>j s. j < length (a # args) \<and> (a # args) ! j = PStr s \<and> os_path_exists w s
                  \<and> k = basic_ps_keys @ ids @ [KInt (int (i + j))]"
      if "map_of (storage_object (storage w')) k \<noteq> map_of (storage_object (storage w)) k" for k
    proof (cases "map_of (storage_object (storage w1)) k = map_of (storage_object (storage w)) k")
      case True
      with that ih obtain j s where "j < length args" "args ! j = PStr s"
        "os_path_exists w1 s" "k = basic_ps_keys @ ids @ [KInt (int (Suc i + j))]"
        by metis
      then have "Suc j < length (a # args) \<and> (a # args) ! Suc j = PStr s \<and> os_path_exists w s
          \<and> k = basic_ps_keys @ ids @ [KInt (int (i + Suc j))]"
        using same_but_values_exists[OF s1] by simp
      then show ?thesis by blast
    next
      case False
      with one obtain s where "a = PStr s" "os_path_exists w s"
        "k = basic_ps_keys @ ids @ [KInt (int i)]" by auto
      then have "0 < length (a # args) \<and> (a # args) ! 0 = PStr s \<and> os_path_exists w s
          \<and> k = basic_ps_keys @ ids @ [KInt (int (i + 0))]" by simp
      then show ?thesis by blast
    qed
    ultimately show ?thesis by blast
  qed
qed

lemma guess_keywords_write:
  assumes "wf_world w" and "is_write_mode (storage w)"
    and "guess_keywords ids kwargs w = (r, w')"
  shows "same_but_values w w'
    \<and> (\<forall>k. map_of (storage_object (storage w')) k \<noteq> map_of (storage_object (storage w)) k
          \<longrightarrow> (\<exists>kw s. (kw, PStr s) \<in> set kwargs \<and> os_path_exists w s
                  \<and> k = basic_ps_keys @ ids @ [KStr kw]))"
  using assms
proof (induction kwargs arbitrary: w)
  case Nil
  then show ?case by simp
next
  case (Cons a kwargs)
  obtain kw v where a: "a = (kw, v)" by (cases a)
  obtain r1 w1 where g: "guess_one (ids @ [KStr kw]) v w = (r1, w1)"
    by (cases "guess_one (ids @ [KStr kw]) v w")
  note one = guess_one_write[OF Cons.prems(1,2) g]
  show ?case
  proof (cases r1)
    case (Inl e)
    with g a Cons.prems(3) have "w' = w1" by simp
    with one a show ?thesis by fastforce
  next
    case (Inr u)
    with g a Cons.prems(3) have rest: "guess_keywords ids kwargs w1 = (r, w')"
      by simp
    from one have s1: "same_but_values w w1" by simp
    then have wf1: "wf_world w1" and wm1: "is_write_mode (storage w1)"
      using Cons.prems(1,2) by (simp_all add: same_but_values_wf) (simp add: same_but_values_def)
    note ih = Cons.IH[OF wf1 wm1 rest]
    have "same_but_values w w'"
      using s1 ih by (blast intro: same_but_values_trans)
    moreover have "\<exists>kw' s. (kw', PStr s) \<in> set (a # kwargs) \<and> os_path_exists w s
                  \<and> k = basic_ps_keys @ ids @ [KStr kw']"
      if "map_of (storage_object (storage w')) k \<noteq> map_of (storage_object (storage w)) k" for k
    proof (cases "map_of (storage_object (storage w1)) k = map_of (storage_object (storage w)) k")
      case True
      with that ih obtain kw' s where "(kw', PStr s) \<in> set kwargs"
        "os_path_exists w1 s" "k = basic_ps_keys @ ids @ [KStr kw']"
        by metis
      then show ?thesis
        using same_but_values_exists[OF s1] by auto
    next
      case False
      with one obtain s where "v = PStr s" "os_path_exists w s"
        "k = basic_ps_keys @ ids @ [KStr kw]" by auto
      with a show ?thesis by auto
    qed
    ultimately show ?thesis by blast
  qed
qed

lemma guess_positions_write_missing:
  assumes "is_write_mode (storage w)"
    and "\<forall>s. PStr s \<in> set args \<longrightarrow> \<not> os_path_exists w s"
  shows "guess_positions ids i args w = (Inr (), w)"
  using assms
proof (induction args arbitrary: i)
  case Nil
  then show ?case by simp
next
  case (Cons a args)
  have "guess_one (ids @ [KInt (int i)]) a w = (Inr (), w)"
    using Cons.prems by (cases a) (auto simp: guess_one_def)
  with Cons show ?case by simp
qed

lemma guess_keywords_write_missing:
  assumes "is_write_mode (storage w)"
    and "\<forall>s. PStr s \<in> snd ` set kwargs \<longrightarrow> \<not> os_path_exists w s"
  shows "guess_keywords ids kwargs w = (Inr (), w)"
  using assms
proof (induction kwargs)
  case Nil
  then show ?case by simp
next
  case (Cons a kwargs)
  obtain kw v where a: "a = (kw, v)" by (cases a)
  have "guess_one (ids @ [KStr kw]) v w = (Inr (), w)"
    using Cons.prems a by (cases v) (auto simp: guess_one_def)
  with Cons a show ?case by simp
qed

text \<open>
  Claim C9. In write mode \<^verbatim>\<open>guess_args\<close> stores under the key of an argument only
  when that argument is a string naming an existing filesystem entry: every key whose
  value differs after the call belongs to such an argument. When no string argument
  names an existing entry nothing is stored, nothing is raised, and the call returns
  the wrapped function's output in the state it left.
\<close>

theorem guess_args_write_only_existing:
  assumes "recording w"
    and "storage_file (storage w) = Some sf"
    and "sfo func args kwargs w = (Inr output, w1)"
    and "wf_world w1"
    and "is_write_mode (storage w1)"
  shows "(\<forall>k. map_of (storage_object (storage (snd (guess_args sfo func args kwargs w)))) k
            \<noteq> map_of (storage_object (storage w1)) k \<longrightarrow>
            (\<exists>j s. j < length args \<and> args ! j = PStr s \<and> os_path_exists w1 s
               \<and> k = basic_ps_keys @ [KStr cls_name, KStr (basename sf), KInt (int j)])
            \<or> (\<exists>kw s. (kw, PStr s) \<in> set kwargs \<and> os_path_exists w1 s
               \<and> k = basic_ps_keys @ [KStr cls_name, KStr (basename sf), KStr kw]))
         \<and> ((\<forall>s. PStr s \<in> set args \<union> snd ` set kwargs \<longrightarrow> \<not> os_path_exists w1 s) \<longrightarrow>
            guess_args sfo func args kwargs w = (Inr output, w1))"
proof -
  define ids where "ids = [KStr cls_name, KStr (basename sf)]"
  obtain r2 w2 where p: "guess_positions ids 0 args w1 = (r2, w2)"
    by (cases "guess_positions ids 0 args w1")
  obtain r3 w3 where q: "guess_keywords ids kwargs w2 = (r3, w3)"
    by (cases "guess_keywords ids kwargs w2")
  note pf = guess_positions_write[OF assms(4,5) p]
  then have s12: "same_but_values w1 w2" by simp
  then have wf2: "wf_world w2" and wm2: "is_write_mode (storage w2)"
    using assms(4,5) by (simp_all add: same_but_values_wf) (simp add: same_but_values_def)
  note qf = guess_keywords_write[OF wf2 wm2 q]
  have unfold: "guess_args sfo func args kwargs w =
      (case r2 of Inl e \<Rightarrow> (Inl e, w2)
       | Inr u \<Rightarrow> (case r3 of Inl e \<Rightarrow> (Inl e, w3) | Inr u' \<Rightarrow> (Inr output, w3)))"
    using assms(1,2,3) p q
    by (simp add: guess_args_def test_identifier_def ids_def split: sum.splits)
  have changed: "(\<exists>j s. j < length args \<and> args ! j = PStr s \<and> os_path_exists w1 s
               \<and> k = basic_ps_keys @ ids @ [KInt (int j)])
            \<or> (\<exists>kw s. (kw, PStr s) \<in> set kwargs \<and> os_path_exists w1 s
               \<and> k = basic_ps_keys @ ids @ [KStr kw])"
    if "map_of (storage_object (storage w3)) k \<noteq> map_of (storage_object (storage w1)) k
        \<or> map_of (storage_object (storage w2)) k \<noteq> map_of (storage_object (storage w1)) k"
    for k
  proof (cases "map_of (storage_object (storage w2)) k = map_of (storage_object (storage w1)) k")
    case True
    with that qf obtain kw s where "(kw, PStr s) \<in> set kwargs" "os_path_exists w2 s"
      "k = basic_ps_keys @ ids @ [KStr kw]" by metis
    then show ?thesis using same_but_values_exists[OF s12] by auto
  next
    case False
    with pf show ?thesis by auto
  qed
  have first: "\<forall>k. map_of (storage_object (storage (snd (guess_args sfo func args kwargs w)))) k
            \<noteq> map_of (storage_object (storage w1)) k \<longrightarrow>
            (\<exists>j s. j < length args \<and> args ! j = PStr s \<and> os_path_exists w1 s
               \<and> k = basic_ps_keys @ ids @ [KInt (int j)])
            \<or> (\<exists>kw s. (kw, PStr s) \<in> set kwargs \<and> os_path_exists w1 s
               \<and> k = basic_ps_keys @ ids @ [KStr kw])"
  proof (intro allI impI)
    fix k
    assume "map_of (storage_object (storage (snd (guess_args sfo func args kwargs w)))) k
            \<noteq> map_of (storage_object (storage w1)) k"
    then have "map_of (storage_object (storage w3)) k \<noteq> map_of (storage_object (storage w1)) k
        \<or> map_of (storage_object (storage w2)) k \<noteq> map_of (storage_object (storage w1)) k"
      unfolding unfold by (auto split: sum.splits)
    then show "(\<exists>j s. j < length args \<and> args ! j = PStr s \<and> os_path_exists w1 s
               \<and> k = basic_ps_keys @ ids @ [KInt (int j)])
            \<or> (\<exists>kw s. (kw, PStr s) \<in> set kwargs \<and> os_path_exists w1 s
               \<and> k = basic_ps_keys @ ids @ [KStr kw])"
      by (rule changed)
  qed
  have second: "guess_args sfo func args kwargs w = (Inr output, w1)"
    if miss: "\<forall>s. PStr s \<in> set args \<union> snd ` set kwargs \<longrightarrow> \<not> os_path_exists w1 s"
  proof -
    from miss have "guess_positions ids 0 args w1 = (Inr (), w1)"
      by (intro guess_positions_write_missing assms(5)) auto
    moreover from miss have "guess_keywords ids kwargs w1 = (Inr (), w1)"
      by (intro guess_keywords_write_missing assms(5)) auto
    ultimately show ?thesis
      using assms(1,2,3) by (simp add: guess_args_def test_identifier_def ids_def)
  qed
  from first second show ?thesis
    by (simp add: ids_def)
qed

theorem guess_args_write_only_existing_witness:
  "recording w_record \<and> storage_file (storage w_record) = Some ''/rec/test1''
   \<and> sfo_through f_first [PStr ''/w/f.bin'', PStr ''/w/nothing''] [] w_record
       = (Inr (PStr ''/w/f.bin''), w_record)
   \<and> wf_world w_record \<and> is_write_mode (storage w_record)
   \<and> map_of (storage_object (storage (snd (guess_args sfo_through f_first
          [PStr ''/w/f.bin'', PStr ''/w/nothing''] [] w_record))))
        (basic_ps_keys @ [KStr cls_name, KStr ''test1'', KInt 0])
       \<noteq> map_of (storage_object (storage w_record))
            (basic_ps_keys @ [KStr cls_name, KStr ''test1'', KInt 0])
   \<and> (\<exists>j s. j < length [PStr ''/w/f.bin'', PStr ''/w/nothing'']
          \<and> [PStr ''/w/f.bin'', PStr ''/w/nothing''] ! j = PStr s \<and> os_path_exists w_record s
          \<and> basic_ps_keys @ [KStr cls_name, KStr ''test1'', KInt 0]
              = basic_ps_keys @ [KStr cls_name, KStr ''test1'', KInt (int j)])
   \<and> \<not> os_path_exists w_record ''/w/nothing'' \<and> \<not> os_path_exists w_record ''gone.txt''
   \<and> guess_args sfo_through f_first [PStr ''/w/nothing'', PInt 3] [(''k'', PStr ''gone.txt'')]
        w_record = (Inr (PStr ''/w/nothing''), w_record)"
proof -
  have h1: "recording w_record" by code_simp
  have h2: "storage_file (storage w_record) = Some ''/rec/test1''" by code_simp
  have h3: "sfo_through f_first [PStr ''/w/f.bin'', PStr ''/w/nothing''] [] w_record
       = (Inr (PStr ''/w/f.bin''), w_record)" by code_simp
  have h3': "sfo_through f_first [PStr ''/w/nothing'', PInt 3] [(''k'', PStr ''gone.txt'')]
       w_record = (Inr (PStr ''/w/nothing''), w_record)" by code_simp
  have h4: "wf_world w_record" by code_simp
  have h5: "is_write_mode (storage w_record)" by code_simp
  have b: "basename ''/rec/test1'' = ''test1''" by code_simp
  have ch: "map_of (storage_object (storage (snd (guess_args sfo_through f_first
          [PStr ''/w/f.bin'', PStr ''/w/nothing''] [] w_record))))
        (basic_ps_keys @ [KStr cls_name, KStr ''test1'', KInt 0])
       \<noteq> map_of (storage_object (storage w_record))
            (basic_ps_keys @ [KStr cls_name, KStr ''test1'', KInt 0])" by code_simp
  have m1: "\<not> os_path_exists w_record ''/w/nothing''" by code_simp
  have m2: "\<not> os_path_exists w_record ''gone.txt''" by code_simp
  note t1 = guess_args_write_only_existing[where sfo = sfo_through and func = f_first
      and args = "[PStr ''/w/f.bin'', PStr ''/w/nothing'']" and kwargs = "[]",
      OF h1 h2 h3 h4 h5, unfolded b]
  note t2 = guess_args_write_only_existing[where sfo = sfo_through and func = f_first
      and args = "[PStr ''/w/nothing'', PInt 3]" and kwargs = "[(''k'', PStr ''gone.txt'')]",
      OF h1 h2 h3' h4 h5, unfolded b]
  from t1 have "\<forall>k. map_of (storage_object (storage (snd (guess_args sfo_through f_first
          [PStr ''/w/f.bin'', PStr ''/w/nothing''] [] w_record)))) k
       \<noteq> map_of (storage_object (storage w_record)) k \<longrightarrow>
       (\<exists>j s. j < length [PStr ''/w/f.bin'', PStr ''/w/nothing'']
          \<and> [PStr ''/w/f.bin'', PStr ''/w/nothing''] ! j = PStr s \<and> os_path_exists w_record s
          \<and> k = basic_ps_keys @ [KStr cls_name, KStr ''test1'', KInt (int j)])"
    by simp
  with ch have ex: "\<exists>j s. j < length [PStr ''/w/f.bin'', PStr ''/w/nothing'']
          \<and> [PStr ''/w/f.bin'', PStr ''/w/nothing''] ! j = PStr s \<and> os_path_exists w_record s
          \<and> basic_ps_keys @ [KStr cls_name, KStr ''test1'', KInt 0]
              = basic_ps_keys @ [KStr cls_name, KStr ''test1'', KInt (int j)]"
    by blast
  from t2 m1 m2 have "guess_args sfo_through f_first [PStr ''/w/nothing'', PInt 3]
      [(''k'', PStr ''gone.txt'')] w_record = (Inr (PStr ''/w/nothing''), w_record)"
    by simp
  with h1 h2 h3 h4 h5 ch ex m1 m2 show ?thesis by blast
qed

section \<open>Replay: artifacts that were not recorded\<close>











section \<open>Locations in the filesystem tree\<close>






lemma kind_at_None: "(kind_at r p = None) = (lookup r p = None)"
  by (simp add: kind_at_def)




section \<open>Resolution\<close>







section \<open>Unpacking\<close>

















section \<open>Path strings below a path\<close>

lemma below_Nil [simp]: "below a [] = a"
  by (simp add: below_def)















section \<open>Extracting a member below the target\<close>










section \<open>Extracting a whole tree\<close>







section \<open>Packing, and the round trip\<close>







section \<open>The record-pass scenario\<close>




end
